theory Spec2Isabelle
  imports Main "HOL-Library.AList"
begin

section \<open>The schema model of \<^verbatim>\<open>my_data_model/main.py\<close>\<close>

text \<open>
  The pydantic classes of the source become records. Two classes of the source share the
  field names \<^verbatim>\<open>name\<close>, \<^verbatim>\<open>type\<close> and \<^verbatim>\<open>columns\<close>, so the fields of
  \<^verbatim>\<open>Column\<close>, \<^verbatim>\<open>Index\<close> and \<^verbatim>\<open>ReferencedBy\<close> carry the prefixes \<open>col_\<close>, \<open>idx_\<close>
  and \<open>ref_\<close>. A Python \<^verbatim>\<open>Dict[str, X]\<close> keeps insertion order and replaces the value of a
  key that is stored again; it is an association list written with \<open>AList.update\<close>, which
  does exactly that, and read with \<open>map_of\<close>. Strings are byte strings: a character of the
  source outside ASCII is written as its UTF-8 bytes.
\<close>

record ForeignKey =
  target_table :: string
  target_column :: string
  constraint_name :: string

record Column =
  col_name :: string
  col_type :: string
  nullable :: bool
  col_default :: "string option"
  primary_key :: bool
  foreign_key :: "ForeignKey option"

record Index =
  idx_name :: string
  idx_columns :: "string list"
  idx_unique :: bool
  idx_type :: "string option"

record ReferencedBy =
  ref_table :: string
  ref_columns :: "string list"
  ref_constraint :: string

record Table =
  description :: "string option"
  columns :: "(string \<times> Column) list"
  indexes :: "(string \<times> Index) list"
  referenced_by :: "(string \<times> ReferencedBy) list"

record Schema =
  tables :: "(string \<times> Table) list"

record DatabaseModel =
  schemas :: "(string \<times> Schema) list"

subsection \<open>Exceptions\<close>

text \<open>
  \<open>BackendError m\<close> is any exception (a subclass of \<^verbatim>\<open>Exception\<close>) raised by the database
  layer whose \<^verbatim>\<open>str()\<close> is \<open>m\<close>; \<open>SchemaValueError m\<close> is the exception class of the source.
  \<open>str_of_error\<close> is what an f-string prints for \<^verbatim>\<open>{e}\<close>.
\<close>

datatype error = BackendError string | SchemaValueError string

fun str_of_error :: "error \<Rightarrow> string" where
  "str_of_error (BackendError m) = m"
| "str_of_error (SchemaValueError m) = m"

subsection \<open>What lies outside the source\<close>

text \<open>
  What the SQLAlchemy inspector and session return is not part of the source; it is a
  parameter of the model. A reflected column is the dictionary of \<^verbatim>\<open>get_columns\<close>
  (\<open>rc_type\<close> is \<^verbatim>\<open>str(col["type"])\<close>), a reflected index the dictionary of
  \<^verbatim>\<open>get_indexes\<close>, where \<open>ri_type = None\<close> says that the dictionary has no key
  \<^verbatim>\<open>"type"\<close>. The rows of the three catalog queries are tuples of strings. Each call either
  raises (\<open>Inl\<close>) or returns (\<open>Inr\<close>); the catalog does not change during a run, so a call
  is a function of its arguments. The values have the types the pydantic classes declare.
  The last field is of the Python runtime and not of the database: \<open>unicode_lower\<close> is
  \<^verbatim>\<open>str.lower()\<close> on a text that has a character outside ASCII, where the Unicode tables
  of the runtime decide the result.
\<close>

record reflected_column =
  rc_name :: string
  rc_type :: string
  rc_nullable :: bool
  rc_default :: "string option"

record reflected_index =
  ri_name :: string
  ri_column_names :: "string list"
  ri_unique :: bool
  ri_type :: "string option"

record backend =
  get_schema_names :: "error + string list"
  get_table_names :: "string \<Rightarrow> error + string list"
  get_columns :: "string \<Rightarrow> string \<Rightarrow> error + reflected_column list"
  get_indexes :: "string \<Rightarrow> string \<Rightarrow> error + reflected_index list"
  execute_primary_keys :: "string \<Rightarrow> error + string list"
  execute_foreign_keys ::
    "string \<Rightarrow> string \<Rightarrow> error + (string \<times> string \<times> string \<times> string) list"
  execute_referenced_by :: "string \<Rightarrow> string \<Rightarrow> error + (string \<times> string \<times> string) list"
  unicode_lower :: "string \<Rightarrow> string"

subsection \<open>Strings\<close>

text \<open>
  \<^verbatim>\<open>str.lower()\<close>. A string is its UTF-8 bytes, so a text of ASCII characters is one
  whose bytes are all below 128. On such a text \<^verbatim>\<open>str.lower()\<close> moves the letters A to
  Z to a to z and leaves every other character. On any other text the result comes from the
  Unicode tables (it can even be longer than the text), and is \<open>unicode_lower\<close>.
\<close>

definition lower_char :: "char \<Rightarrow> char" where
  "lower_char c =
     (let n = (of_char c :: nat) in if 65 \<le> n \<and> n \<le> 90 then char_of (n + 32) else c)"

definition is_ascii :: "string \<Rightarrow> bool" where
  "is_ascii s = list_all (\<lambda>c. (of_char c :: nat) < 128) s"

definition str_lower :: "backend \<Rightarrow> string \<Rightarrow> string" where
  "str_lower be s = (if is_ascii s then map lower_char s else unicode_lower be s)"

fun starts_with :: "string \<Rightarrow> string \<Rightarrow> bool" where
  "starts_with s [] = True"
| "starts_with [] (p # ps) = False"
| "starts_with (c # cs) (p # ps) = (c = p \<and> starts_with cs ps)"

text \<open>\<open>str_contains s p\<close> is Python's \<^verbatim>\<open>p in s\<close> on strings.\<close>

fun str_contains :: "string \<Rightarrow> string \<Rightarrow> bool" where
  "str_contains [] p = (p = [])"
| "str_contains (c # cs) p = (starts_with (c # cs) p \<or> str_contains cs p)"

subsection \<open>The catalog queries\<close>

text \<open>
  \<^verbatim>\<open>_get_primary_keys\<close>: the query takes the one parameter \<^verbatim>\<open>f"{schema}.{table_name}"\<close>,
  and the result is \<^verbatim>\<open>row[0]\<close> of every row.
\<close>

definition get_primary_keys :: "backend \<Rightarrow> string \<Rightarrow> string \<Rightarrow> error + string list" where
  "get_primary_keys be schema table_name =
     (let full_table_name = schema @ ''.'' @ table_name in
      case execute_primary_keys be full_table_name of
        Inl e \<Rightarrow> Inl e
      | Inr result \<Rightarrow> Inr (map (\<lambda>row. row) result))"

text \<open>
  \<^verbatim>\<open>_get_foreign_keys\<close>: a dictionary comprehension, which stores the rows in order
  under \<^verbatim>\<open>row[0]\<close>.
\<close>

definition foreign_key_entry ::
  "string \<times> string \<times> string \<times> string \<Rightarrow> string \<times> ForeignKey" where
  "foreign_key_entry row =
     (case row of (r0, r1, r2, r3) \<Rightarrow>
        (r0, \<lparr>target_table = r1, target_column = r2, constraint_name = r3\<rparr>))"

definition get_foreign_keys ::
  "backend \<Rightarrow> string \<Rightarrow> string \<Rightarrow> error + (string \<times> ForeignKey) list" where
  "get_foreign_keys be schema table_name =
     (case execute_foreign_keys be schema table_name of
        Inl e \<Rightarrow> Inl e
      | Inr result \<Rightarrow>
          Inr (foldl (\<lambda>d row. AList.update (fst (foreign_key_entry row))
                                (snd (foreign_key_entry row)) d) [] result))"

text \<open>\<^verbatim>\<open>_get_referenced_by\<close>: the same shape, keyed by \<^verbatim>\<open>row[0]\<close>, the referencing table.\<close>

definition referenced_by_entry :: "string \<times> string \<times> string \<Rightarrow> string \<times> ReferencedBy" where
  "referenced_by_entry row =
     (case row of (r0, r1, r2) \<Rightarrow>
        (r0, \<lparr>ref_table = r0, ref_columns = [r1], ref_constraint = r2\<rparr>))"

definition get_referenced_by ::
  "backend \<Rightarrow> string \<Rightarrow> string \<Rightarrow> error + (string \<times> ReferencedBy) list" where
  "get_referenced_by be schema table_name =
     (case execute_referenced_by be schema table_name of
        Inl e \<Rightarrow> Inl e
      | Inr result \<Rightarrow>
          Inr (foldl (\<lambda>d row. AList.update (fst (referenced_by_entry row))
                                (snd (referenced_by_entry row)) d) [] result))"

subsection \<open>Assembling one table\<close>

text \<open>
  The body of the column loop of \<^verbatim>\<open>extract_schema\<close>: the column is built with
  \<^verbatim>\<open>primary_key = col["name"] in primary_keys\<close> and no foreign key, and the foreign key is
  set afterwards when the name is a key of \<^verbatim>\<open>foreign_keys\<close>.
\<close>

definition build_column ::
  "reflected_column \<Rightarrow> string list \<Rightarrow> (string \<times> ForeignKey) list \<Rightarrow> Column" where
  "build_column col primary_keys foreign_keys =
     (let column = \<lparr>col_name = rc_name col, col_type = rc_type col,
                     nullable = rc_nullable col, col_default = rc_default col,
                     primary_key = (rc_name col \<in> set primary_keys),
                     foreign_key = None\<rparr>
      in case map_of foreign_keys (rc_name col) of
           None \<Rightarrow> column
         | Some fk \<Rightarrow> column\<lparr>foreign_key := Some fk\<rparr>)"

definition build_columns ::
  "reflected_column list \<Rightarrow> string list \<Rightarrow> (string \<times> ForeignKey) list
     \<Rightarrow> (string \<times> Column) list" where
  "build_columns cols primary_keys foreign_keys =
     foldl (\<lambda>d col. AList.update (rc_name col) (build_column col primary_keys foreign_keys) d)
       [] cols"

text \<open>
  The index loop: \<^verbatim>\<open>idx.get("type", "btree").lower()\<close>, then the row is stored unless its
  name is \<^verbatim>\<open>"PRIMARY"\<close>.
\<close>

definition build_index :: "backend \<Rightarrow> reflected_index \<Rightarrow> Index" where
  "build_index be idx =
     (let index_type = str_lower be (case ri_type idx of None \<Rightarrow> ''btree'' | Some t \<Rightarrow> t)
      in \<lparr>idx_name = ri_name idx, idx_columns = ri_column_names idx,
          idx_unique = ri_unique idx, idx_type = Some index_type\<rparr>)"

definition build_indexes :: "backend \<Rightarrow> reflected_index list \<Rightarrow> (string \<times> Index) list" where
  "build_indexes be idxs =
     foldl (\<lambda>d idx. if ri_name idx \<noteq> ''PRIMARY''
                     then AList.update (ri_name idx) (build_index be idx) d else d)
       [] idxs"

text \<open>
  The two messages of \<^verbatim>\<open>SchemaValueError\<close>. Each is two adjacent string literals. In the
  first message only the second literal is an f-string, so the braces of the first literal
  are text; in the second message the literal with the braces is the f-string.
\<close>

definition apostrophe :: string where
  "apostrophe = [CHR 0x27]"

definition a_acute :: string where
  "a_acute = [CHR 0xC3, CHR 0xA1]"

definition a_tilde :: string where
  "a_tilde = [CHR 0xC3, CHR 0xA3]"

definition c_cedilla :: string where
  "c_cedilla = [CHR 0xC3, CHR 0xA7]"

definition o_tilde :: string where
  "o_tilde = [CHR 0xC3, CHR 0xB5]"

definition index_error_message :: "string \<Rightarrow> string \<Rightarrow> error \<Rightarrow> string" where
  "index_error_message schema_name table_name e =
     ''Erro ao tentar obter os indices no cat'' @ a_acute @ ''logo para '' @ apostrophe
       @ ''{schema_name}.{table_name}'' @ apostrophe @ ''. ''
       @ ''Exception: '' @ str_of_error e"

definition referenced_by_error_message :: "string \<Rightarrow> string \<Rightarrow> error \<Rightarrow> string" where
  "referenced_by_error_message schema_name table_name e =
     ''Erro ao tentar obter restri'' @ c_cedilla @ o_tilde @ ''es de integridade referencial ''
       @ ''no cat'' @ a_acute @ ''logo para '' @ apostrophe
       @ schema_name @ ''.'' @ table_name @ apostrophe @ ''. Exception: '' @ str_of_error e"

text \<open>
  The body of the table loop. The result is the list of lines printed and either the
  exception that leaves the loop or the finished \<^verbatim>\<open>Table\<close>. The lookups of columns,
  primary keys and foreign keys are outside every \<^verbatim>\<open>try\<close>; the index lookup and the
  reverse-reference lookup are each inside one.
\<close>

definition build_table :: "backend \<Rightarrow> string \<Rightarrow> string \<Rightarrow> string list \<times> (error + Table)" where
  "build_table be schema_name table_name =
     (case get_columns be table_name schema_name of
        Inl e \<Rightarrow> ([], Inl e)
      | Inr cols \<Rightarrow>
     (case get_primary_keys be schema_name table_name of
        Inl e \<Rightarrow> ([], Inl e)
      | Inr primary_keys \<Rightarrow>
     (case get_foreign_keys be schema_name table_name of
        Inl e \<Rightarrow> ([], Inl e)
      | Inr foreign_keys \<Rightarrow>
     (let out = [''table_name = '' @ table_name,
                 ''Obtendo os indices para a tabela '' @ apostrophe
                   @ schema_name @ ''.'' @ table_name @ apostrophe]
      in case get_indexes be table_name schema_name of
        Inl e \<Rightarrow> (out, Inl (SchemaValueError (index_error_message schema_name table_name e)))
      | Inr idxs \<Rightarrow>
     (case get_referenced_by be schema_name table_name of
        Inl e \<Rightarrow>
          (out, Inl (SchemaValueError (referenced_by_error_message schema_name table_name e)))
      | Inr refs \<Rightarrow>
          (out, Inr \<lparr>description = None,
                     columns = build_columns cols primary_keys foreign_keys,
                     indexes = build_indexes be idxs,
                     referenced_by = refs\<rparr>))))))"

subsection \<open>The traversal\<close>

text \<open>The loop over the tables of one schema; \<open>acc\<close> is \<^verbatim>\<open>schema_model.tables\<close>.\<close>

fun tables_loop ::
  "backend \<Rightarrow> string \<Rightarrow> string list \<Rightarrow> (string \<times> Table) list
     \<Rightarrow> string list \<times> (error + (string \<times> Table) list)" where
  "tables_loop be schema_name [] acc = ([], Inr acc)"
| "tables_loop be schema_name (table_name # rest) acc =
     (case build_table be schema_name table_name of
        (out, Inl e) \<Rightarrow> (out, Inl e)
      | (out, Inr table_model) \<Rightarrow>
          (case tables_loop be schema_name rest (AList.update table_name table_model acc) of
             (out', r) \<Rightarrow> (out @ out', r)))"

text \<open>The loop over the schemas; \<open>acc\<close> is \<^verbatim>\<open>database_model.schemas\<close>.\<close>

fun schemas_loop ::
  "backend \<Rightarrow> string list \<Rightarrow> (string \<times> Schema) list
     \<Rightarrow> string list \<times> (error + (string \<times> Schema) list)" where
  "schemas_loop be [] acc = ([], Inr acc)"
| "schemas_loop be (schema_name # rest) acc =
     (let line = ''schema = '' @ schema_name in
      case get_table_names be schema_name of
        Inl e \<Rightarrow> ([line], Inl e)
      | Inr tbls \<Rightarrow>
          (case tables_loop be schema_name tbls [] of
             (out, Inl e) \<Rightarrow> (line # out, Inl e)
           | (out, Inr ts) \<Rightarrow>
               (case schemas_loop be rest (AList.update schema_name \<lparr>tables = ts\<rparr> acc) of
                  (out', r) \<Rightarrow> (line # out @ out', r))))"

definition system_schemas :: "string list" where
  "system_schemas = [''information_schema'', ''pg_catalog'']"

definition extract_schema :: "backend \<Rightarrow> string list \<times> (error + DatabaseModel)" where
  "extract_schema be =
     (case get_schema_names be of
        Inl e \<Rightarrow> ([], Inl e)
      | Inr names \<Rightarrow>
          (case schemas_loop be (filter (\<lambda>s. s \<notin> set system_schemas) names) [] of
             (out, Inl e) \<Rightarrow> (out, Inl e)
           | (out, Inr ss) \<Rightarrow> (out, Inr \<lparr>schemas = ss\<rparr>)))"

subsection \<open>The program\<close>

text \<open>
  What \<^verbatim>\<open>main\<close> needs from outside the source: the two renderings printed in its first
  line, pydantic's \<^verbatim>\<open>model_dump_json\<close>, and whether \<^verbatim>\<open>open(..., "w")\<close> raises. The
  extractor is taken as constructed. The outcome of a run is what it printed, the file it
  wrote (path and content), its exit code, and whether \<^verbatim>\<open>close\<close> ran.
\<close>

record environment =
  extractor_type :: string
  extractor_repr :: string
  model_dump_json :: "DatabaseModel \<Rightarrow> error + string"
  open_for_writing :: "string \<Rightarrow> error option"

record outcome =
  stdout :: "string list"
  written :: "(string \<times> string) option"
  exit_code :: nat
  session_closed :: bool

definition JSON_DESTINATION_FILENAME :: string where
  "JSON_DESTINATION_FILENAME = ''tmp/schema_documentation.json''"

definition close_line :: string where
  "close_line = ''Fechando conex'' @ a_tilde @ ''o ao banco de dados''"

definition failure_line :: "error \<Rightarrow> string" where
  "failure_line e =
     ''Erro durante a extra'' @ c_cedilla @ a_tilde @ ''o: '' @ str_of_error e"

definition success_line :: string where
  "success_line =
     [CHR 0x0A, CHR 0x0A] @ ''Documenta'' @ c_cedilla @ a_tilde @ ''o gerada com sucesso em ''
       @ JSON_DESTINATION_FILENAME @ [CHR 0x0A]"

text \<open>
  The handler of \<^verbatim>\<open>main\<close> prints the failure and calls \<^verbatim>\<open>sys.exit(1)\<close>; the
  \<^verbatim>\<open>finally\<close> clause closes the session on every path.
\<close>

definition failed :: "string list \<Rightarrow> error \<Rightarrow> outcome" where
  "failed out e =
     \<lparr>stdout = out @ [failure_line e, close_line], written = None,
      exit_code = 1, session_closed = True\<rparr>"

definition main :: "backend \<Rightarrow> environment \<Rightarrow> outcome" where
  "main be env =
     (let line = ''type(extractor) = '' @ extractor_type env
                   @ '', extractor = '' @ extractor_repr env
      in case extract_schema be of
        (out, Inl e) \<Rightarrow> failed (line # out) e
      | (out, Inr database_model) \<Rightarrow>
          (case model_dump_json env database_model of
             Inl e \<Rightarrow> failed (line # out) e
           | Inr json_output \<Rightarrow>
               (case open_for_writing env JSON_DESTINATION_FILENAME of
                  Some e \<Rightarrow> failed (line # out) e
                | None \<Rightarrow>
                    \<lparr>stdout = line # out @ [close_line, success_line],
                     written = Some (JSON_DESTINATION_FILENAME, json_output),
                     exit_code = 0, session_closed = True\<rparr>)))"

section \<open>A small catalog\<close>

text \<open>
  One catalog to run the program on: the two system schemas, a schema \<open>public\<close> with
  the tables \<open>customers\<close> and \<open>items\<close>, and an empty schema \<open>audit\<close>. The table
  \<open>items\<close> has a primary key of two columns, a column \<open>buyer\<close> with two foreign-key
  constraints to \<open>customers\<close>, an index without a type and one of type \<open>Hash\<close>;
  \<open>customers\<close> has an index row named \<open>PRIMARY\<close> and is referenced twice from
  \<open>items\<close>. Every text of the catalog is ASCII, so \<open>unicode_lower\<close> is never asked.
\<close>

definition demo_backend :: backend where
  "demo_backend =
     \<lparr>get_schema_names = Inr [''information_schema'', ''public'', ''pg_catalog'', ''audit''],
      get_table_names = (\<lambda>s. if s = ''public'' then Inr [''customers'', ''items''] else Inr []),
      get_columns = (\<lambda>t s.
        if t = ''customers'' then
          Inr [\<lparr>rc_name = ''id'', rc_type = ''INTEGER'', rc_nullable = False,
                rc_default = None\<rparr>]
        else if t = ''items'' then
          Inr [\<lparr>rc_name = ''order_id'', rc_type = ''INTEGER'', rc_nullable = False,
                rc_default = None\<rparr>,
               \<lparr>rc_name = ''line_no'', rc_type = ''INTEGER'', rc_nullable = False,
                rc_default = Some ''1''\<rparr>,
               \<lparr>rc_name = ''buyer'', rc_type = ''INTEGER'', rc_nullable = True,
                rc_default = None\<rparr>]
        else Inr []),
      get_indexes = (\<lambda>t s.
        if t = ''customers'' then
          Inr [\<lparr>ri_name = ''PRIMARY'', ri_column_names = [''id''], ri_unique = True,
                ri_type = None\<rparr>,
               \<lparr>ri_name = ''ix_id'', ri_column_names = [''id''], ri_unique = True,
                ri_type = Some ''BTREE''\<rparr>]
        else if t = ''items'' then
          Inr [\<lparr>ri_name = ''ix_buyer'', ri_column_names = [''buyer''], ri_unique = False,
                ri_type = None\<rparr>,
               \<lparr>ri_name = ''ix_line'', ri_column_names = [''line_no''], ri_unique = True,
                ri_type = Some ''Hash''\<rparr>]
        else Inr []),
      execute_primary_keys = (\<lambda>full_table_name.
        if full_table_name = ''public.customers'' then Inr [''id'']
        else if full_table_name = ''public.items'' then Inr [''order_id'', ''line_no'']
        else Inr []),
      execute_foreign_keys = (\<lambda>s t.
        if t = ''items'' then
          Inr [(''buyer'', ''customers'', ''id'', ''fk_old''),
               (''buyer'', ''customers'', ''id'', ''fk_buyer''),
               (''order_id'', ''orders'', ''id'', ''fk_order'')]
        else Inr []),
      execute_referenced_by = (\<lambda>s t.
        if t = ''customers'' then
          Inr [(''items'', ''id'', ''fk_old''), (''items'', ''id'', ''fk_buyer''),
               (''invoices'', ''id'', ''fk_invoice'')]
        else Inr []),
      unicode_lower = (\<lambda>s. s)\<rparr>"

definition demo_fk :: ForeignKey where
  "demo_fk = \<lparr>target_table = ''customers'', target_column = ''id'',
              constraint_name = ''fk_buyer''\<rparr>"

definition demo_id :: Column where
  "demo_id = \<lparr>col_name = ''id'', col_type = ''INTEGER'', nullable = False,
              col_default = None, primary_key = True, foreign_key = None\<rparr>"

definition demo_fk_order :: ForeignKey where
  "demo_fk_order = \<lparr>target_table = ''orders'', target_column = ''id'',
                    constraint_name = ''fk_order''\<rparr>"

definition demo_order_id :: Column where
  "demo_order_id = \<lparr>col_name = ''order_id'', col_type = ''INTEGER'', nullable = False,
                    col_default = None, primary_key = True,
                    foreign_key = Some demo_fk_order\<rparr>"

definition demo_line_no :: Column where
  "demo_line_no = \<lparr>col_name = ''line_no'', col_type = ''INTEGER'', nullable = False,
                   col_default = Some ''1'', primary_key = True, foreign_key = None\<rparr>"

definition demo_buyer :: Column where
  "demo_buyer = \<lparr>col_name = ''buyer'', col_type = ''INTEGER'', nullable = True,
                 col_default = None, primary_key = False, foreign_key = Some demo_fk\<rparr>"

definition demo_ix_buyer :: Index where
  "demo_ix_buyer = \<lparr>idx_name = ''ix_buyer'', idx_columns = [''buyer''], idx_unique = False,
                    idx_type = Some ''btree''\<rparr>"

definition demo_ix_line :: Index where
  "demo_ix_line = \<lparr>idx_name = ''ix_line'', idx_columns = [''line_no''], idx_unique = True,
                   idx_type = Some ''hash''\<rparr>"

definition demo_ref :: ReferencedBy where
  "demo_ref = \<lparr>ref_table = ''items'', ref_columns = [''id''], ref_constraint = ''fk_buyer''\<rparr>"

definition demo_ref_invoices :: ReferencedBy where
  "demo_ref_invoices = \<lparr>ref_table = ''invoices'', ref_columns = [''id''],
                        ref_constraint = ''fk_invoice''\<rparr>"

definition demo_ix_id :: Index where
  "demo_ix_id = \<lparr>idx_name = ''ix_id'', idx_columns = [''id''], idx_unique = True,
                 idx_type = Some ''btree''\<rparr>"

definition demo_customers :: Table where
  "demo_customers =
     \<lparr>description = None, columns = [(''id'', demo_id)],
      indexes = [(''ix_id'', demo_ix_id)],
      referenced_by = [(''items'', demo_ref), (''invoices'', demo_ref_invoices)]\<rparr>"

definition demo_items :: Table where
  "demo_items =
     \<lparr>description = None,
      columns = [(''order_id'', demo_order_id), (''line_no'', demo_line_no),
                 (''buyer'', demo_buyer)],
      indexes = [(''ix_buyer'', demo_ix_buyer), (''ix_line'', demo_ix_line)],
      referenced_by = []\<rparr>"

definition demo_public :: Schema where
  "demo_public = \<lparr>tables = [(''customers'', demo_customers), (''items'', demo_items)]\<rparr>"

definition demo_model :: DatabaseModel where
  "demo_model = \<lparr>schemas = [(''public'', demo_public), (''audit'', \<lparr>tables = []\<rparr>)]\<rparr>"

text \<open>The same catalog, where reading the indexes of \<open>customers\<close> is refused.\<close>

definition failing_backend :: backend where
  "failing_backend =
     demo_backend\<lparr>get_indexes := (\<lambda>t s.
        if t = ''customers'' then Inl (BackendError ''permission denied'')
        else get_indexes demo_backend t s)\<rparr>"

text \<open>The message that the source's first handler builds for that refusal.\<close>

definition failing_message :: string where
  "failing_message =
     ''Erro ao tentar obter os indices no cat'' @ a_acute @ ''logo para '' @ apostrophe
       @ ''{schema_name}.{table_name}'' @ apostrophe
       @ ''. Exception: permission denied''"

definition demo_environment :: environment where
  "demo_environment =
     \<lparr>extractor_type = ''<class PostgresSchemaExtractor>'',
      extractor_repr = ''<PostgresSchemaExtractor object>'',
      model_dump_json = (\<lambda>d. Inr ''{}''),
      open_for_writing = (\<lambda>path. None)\<rparr>"

section \<open>Dictionaries built by a loop\<close>

text \<open>
  Every dictionary of the program is filled by one loop that stores a value under a key
  for each row. The lemmas say which entries such a loop leaves: each comes from a row,
  the keys are those of the rows, no key occurs twice, and the last row of a key decides
  its value.
\<close>

lemma update_entry:
  "(k', v') \<in> set (AList.update k v al) \<Longrightarrow> (k', v') = (k, v) \<or> (k', v') \<in> set al"
  by (induction al) (auto split: if_splits)

lemma foldl_update_entry:
  "(k, v) \<in> set (foldl (\<lambda>d r. AList.update (kf r) (vf r) d) d0 rows)
     \<Longrightarrow> (k, v) \<in> set d0 \<or> (\<exists>r \<in> set rows. k = kf r \<and> v = vf r)"
proof (induction rows arbitrary: d0)
  case Nil
  then show ?case by simp
next
  case (Cons r rows)
  from Cons.prems have "(k, v) \<in> set (foldl (\<lambda>d r. AList.update (kf r) (vf r) d)
      (AList.update (kf r) (vf r) d0) rows)" by simp
  from Cons.IH [OF this] show ?case
    by (auto dest: update_entry)
qed

lemma foldl_update_keys:
  "fst ` set (foldl (\<lambda>d r. AList.update (kf r) (vf r) d) d0 rows) = fst ` set d0 \<union> kf ` set rows"
  by (induction rows arbitrary: d0) (auto simp: dom_update)




lemma foldl_update_filter:
  "foldl (\<lambda>d r. if P r then AList.update (kf r) (vf r) d else d) d0 rows
     = foldl (\<lambda>d r. AList.update (kf r) (vf r) d) d0 (filter P rows)"
  by (induction rows arbitrary: d0) auto

section \<open>What an extraction run returns\<close>

text \<open>
  A table of the returned model was built by \<open>build_table\<close> for its schema and its name,
  from lookups that all returned.
\<close>

lemma build_table_Inr:
  assumes "build_table be s t = (out, Inr tm)"
  shows "\<exists>cols pks fks idxs refs.
           get_columns be t s = Inr cols \<and> get_primary_keys be s t = Inr pks \<and>
           get_foreign_keys be s t = Inr fks \<and> get_indexes be t s = Inr idxs \<and>
           get_referenced_by be s t = Inr refs \<and>
           tm = \<lparr>description = None, columns = build_columns cols pks fks,
                 indexes = build_indexes be idxs, referenced_by = refs\<rparr>"
  using assms by (auto simp: build_table_def Let_def split: sum.splits)

lemma tables_loop_entry:
  "tables_loop be s ts acc = (out, Inr r) \<Longrightarrow> (t, tm) \<in> set r
     \<Longrightarrow> (t, tm) \<in> set acc \<or> (t \<in> set ts \<and> (\<exists>out'. build_table be s t = (out', Inr tm)))"
proof (induction ts arbitrary: acc out)
  case Nil
  then show ?case by simp
next
  case (Cons a ts)
  from Cons.prems(1) obtain o1 tm1 o2 where
    b: "build_table be s a = (o1, Inr tm1)" and
    l: "tables_loop be s ts (AList.update a tm1 acc) = (o2, Inr r)"
    by (auto split: prod.splits sum.splits)
  from Cons.IH [OF l Cons.prems(2)] b show ?case
    by (auto dest: update_entry)
qed

lemma schemas_loop_entry:
  "schemas_loop be ss acc = (out, Inr r) \<Longrightarrow> (s, sm) \<in> set r
     \<Longrightarrow> (s, sm) \<in> set acc \<or>
         (s \<in> set ss \<and> (\<exists>tbls out'. get_table_names be s = Inr tbls \<and>
                             tables_loop be s tbls [] = (out', Inr (tables sm))))"
proof (induction ss arbitrary: acc out)
  case Nil
  then show ?case by simp
next
  case (Cons a ss)
  from Cons.prems(1) obtain tbls o1 ts o2 where
    g: "get_table_names be a = Inr tbls" and
    t: "tables_loop be a tbls [] = (o1, Inr ts)" and
    l: "schemas_loop be ss (AList.update a \<lparr>tables = ts\<rparr> acc) = (o2, Inr r)"
    by (auto simp: Let_def split: prod.splits sum.splits)
  from Cons.IH [OF l Cons.prems(2)] g t show ?case
    by (auto dest!: update_entry)
qed

lemma schemas_loop_keys:
  "schemas_loop be ss acc = (out, Inr r) \<Longrightarrow> fst ` set r = fst ` set acc \<union> set ss"
proof (induction ss arbitrary: acc out)
  case Nil
  then show ?case by simp
next
  case (Cons a ss)
  from Cons.prems(1) obtain ts o2 where
    l: "schemas_loop be ss (AList.update a \<lparr>tables = ts\<rparr> acc) = (o2, Inr r)"
    by (auto simp: Let_def split: prod.splits sum.splits)
  from Cons.IH [OF l] show ?case
    by (auto simp: dom_update)
qed

lemma extract_schema_Inr:
  assumes "snd (extract_schema be) = Inr dm"
  shows "\<exists>names out. get_schema_names be = Inr names \<and>
           schemas_loop be (filter (\<lambda>s. s \<notin> set system_schemas) names) [] = (out, Inr (schemas dm))"
  using assms by (auto simp: extract_schema_def split: sum.splits prod.splits)

lemma assembled_table:
  assumes "snd (extract_schema be) = Inr dm" "(s, sm) \<in> set (schemas dm)"
    "(t, tm) \<in> set (tables sm)"
  shows "\<exists>out. build_table be s t = (out, Inr tm)"
proof -
  from extract_schema_Inr [OF assms(1)] obtain names out where
    "schemas_loop be (filter (\<lambda>s. s \<notin> set system_schemas) names) [] = (out, Inr (schemas dm))"
    by blast
  from schemas_loop_entry [OF this assms(2)] obtain tbls out' where
    "tables_loop be s tbls [] = (out', Inr (tables sm))" by auto
  from tables_loop_entry [OF this assms(3)] show ?thesis by auto
qed

lemma build_columns_entry:
  "(c, col) \<in> set (build_columns cols pks fks)
     \<Longrightarrow> \<exists>r \<in> set cols. c = rc_name r \<and> col = build_column r pks fks"
  unfolding build_columns_def by (drule foldl_update_entry) auto

lemma build_indexes_entry:
  "(n, ix) \<in> set (build_indexes be idxs)
     \<Longrightarrow> \<exists>r \<in> set idxs. ri_name r \<noteq> ''PRIMARY'' \<and> n = ri_name r \<and> ix = build_index be r"
  unfolding build_indexes_def foldl_update_filter by (drule foldl_update_entry) auto

lemma build_indexes_keys:
  "fst ` set (build_indexes be idxs) = ri_name ` set idxs - {''PRIMARY''}"
  unfolding build_indexes_def foldl_update_filter foldl_update_keys by auto

lemma get_referenced_by_entry:
  "get_referenced_by be s t = Inr refs \<Longrightarrow> (k, rb) \<in> set refs
    \<Longrightarrow> \<exists>rows. execute_referenced_by be s t = Inr rows \<and>
          (\<exists>row \<in> set rows. k = fst (referenced_by_entry row) \<and> rb = snd (referenced_by_entry row))"
  unfolding get_referenced_by_def
  by (auto split: sum.splits dest!: foldl_update_entry)

subsection \<open>The run on the small catalog\<close>

lemmas demo_defs = demo_backend_def demo_fk_def demo_fk_order_def demo_id_def demo_order_id_def
  demo_line_no_def demo_buyer_def demo_ix_id_def demo_ix_buyer_def demo_ix_line_def
  demo_ref_def demo_ref_invoices_def demo_customers_def demo_items_def demo_public_def
  demo_model_def

lemmas run_defs = extract_schema_def system_schemas_def build_table_def get_primary_keys_def
  get_foreign_keys_def get_referenced_by_def foreign_key_entry_def referenced_by_entry_def
  build_columns_def build_column_def build_indexes_def build_index_def apostrophe_def

lemma str_lower_btree: "str_lower be ''btree'' = ''btree''"
  by code_simp

lemma str_lower_Hash: "str_lower be ''Hash'' = ''hash''"
  by code_simp

lemma str_lower_BTREE: "str_lower be ''BTREE'' = ''btree''"
  by code_simp

lemma extract_schema_demo: "snd (extract_schema demo_backend) = Inr demo_model"
  by (simp add: demo_defs run_defs str_lower_btree str_lower_Hash str_lower_BTREE)

lemma demo_public_in_model: "(''public'', demo_public) \<in> set (schemas demo_model)"
  by (simp add: demo_model_def)

lemma demo_items_in_public: "(''items'', demo_items) \<in> set (tables demo_public)"
  by (simp add: demo_public_def)

lemma demo_customers_in_public: "(''customers'', demo_customers) \<in> set (tables demo_public)"
  by (simp add: demo_public_def)

section \<open>Columns\<close>

text \<open>
  C1. In every table of the model that \<open>extract_schema\<close> returns, a column is flagged
  \<open>primary_key\<close> exactly when its name is in the result of the primary-key lookup for
  the schema and the table. The lookup has returned, and the key under which the column is
  stored is its name. The primary key may have several columns.
\<close>

theorem primary_key_flag_iff_member:
  assumes "snd (extract_schema be) = Inr dm" "(s, sm) \<in> set (schemas dm)"
    "(t, tm) \<in> set (tables sm)" "(c, col) \<in> set (columns tm)"
  shows "\<exists>pks. get_primary_keys be s t = Inr pks \<and> c = col_name col \<and>
           (primary_key col \<longleftrightarrow> col_name col \<in> set pks)"
proof -
  from assembled_table [OF assms(1-3)] obtain out where "build_table be s t = (out, Inr tm)" ..
  from build_table_Inr [OF this] obtain cols pks fks where
    p: "get_primary_keys be s t = Inr pks" and
    c: "columns tm = build_columns cols pks fks" by auto
  from assms(4) c obtain r where "c = rc_name r" "col = build_column r pks fks"
    by (auto dest: build_columns_entry)
  then have "c = col_name col" "primary_key col \<longleftrightarrow> col_name col \<in> set pks"
    by (auto simp: build_column_def Let_def split: option.splits)
  with p show ?thesis by blast
qed

theorem primary_key_flag_iff_member_witness:
  "snd (extract_schema demo_backend) = Inr demo_model
   \<and> (''public'', demo_public) \<in> set (schemas demo_model)
   \<and> (''items'', demo_items) \<in> set (tables demo_public)
   \<and> (''line_no'', demo_line_no) \<in> set (columns demo_items)
   \<and> (\<exists>pks. get_primary_keys demo_backend ''public'' ''items'' = Inr pks
          \<and> ''line_no'' = col_name demo_line_no
          \<and> (primary_key demo_line_no \<longleftrightarrow> col_name demo_line_no \<in> set pks))"
proof -
  have c: "(''line_no'', demo_line_no) \<in> set (columns demo_items)"
    by (simp add: demo_items_def)
  from primary_key_flag_iff_member
    [OF extract_schema_demo demo_public_in_model demo_items_in_public c]
  show ?thesis
    using extract_schema_demo demo_public_in_model demo_items_in_public c by blast
qed

text \<open>
  C2. In every table of the returned model, a column has a foreign key exactly when its
  name is a key of the mapping that the foreign-key lookup returned for the table, and the
  foreign key is then the value stored under that name.
\<close>

theorem foreign_key_present_iff_key:
  assumes "snd (extract_schema be) = Inr dm" "(s, sm) \<in> set (schemas dm)"
    "(t, tm) \<in> set (tables sm)" "(c, col) \<in> set (columns tm)"
  shows "\<exists>fks. get_foreign_keys be s t = Inr fks \<and>
           (foreign_key col \<noteq> None \<longleftrightarrow> col_name col \<in> fst ` set fks) \<and>
           foreign_key col = map_of fks (col_name col)"
proof -
  from assembled_table [OF assms(1-3)] obtain out where "build_table be s t = (out, Inr tm)" ..
  from build_table_Inr [OF this] obtain cols pks fks where
    p: "get_foreign_keys be s t = Inr fks" and
    c: "columns tm = build_columns cols pks fks" by auto
  from assms(4) c obtain r where "c = rc_name r" "col = build_column r pks fks"
    by (auto dest: build_columns_entry)
  then have "foreign_key col = map_of fks (col_name col)"
    by (auto simp: build_column_def Let_def split: option.splits)
  moreover have "map_of fks (col_name col) \<noteq> None \<longleftrightarrow> col_name col \<in> fst ` set fks"
    by (simp add: map_of_eq_None_iff)
  ultimately show ?thesis using p by auto
qed

theorem foreign_key_present_iff_key_witness:
  "snd (extract_schema demo_backend) = Inr demo_model
   \<and> (''public'', demo_public) \<in> set (schemas demo_model)
   \<and> (''items'', demo_items) \<in> set (tables demo_public)
   \<and> (''buyer'', demo_buyer) \<in> set (columns demo_items)
   \<and> (\<exists>fks. get_foreign_keys demo_backend ''public'' ''items'' = Inr fks
          \<and> (foreign_key demo_buyer \<noteq> None \<longleftrightarrow> col_name demo_buyer \<in> fst ` set fks)
          \<and> foreign_key demo_buyer = map_of fks (col_name demo_buyer))"
proof -
  have c: "(''buyer'', demo_buyer) \<in> set (columns demo_items)"
    by (simp add: demo_items_def)
  from foreign_key_present_iff_key
    [OF extract_schema_demo demo_public_in_model demo_items_in_public c]
  show ?thesis
    using extract_schema_demo demo_public_in_model demo_items_in_public c by blast
qed

section \<open>The two lookups that return mappings\<close>







section \<open>Indexes\<close>

lemma idx_name_build_index: "idx_name (build_index be r) = ri_name r"
  by (simp add: build_index_def Let_def)

lemma build_indexes_no_primary:
  assumes "(n, ix) \<in> set (build_indexes be idxs)"
  shows "n \<noteq> ''PRIMARY'' \<and> idx_name ix \<noteq> ''PRIMARY''"
proof -
  from build_indexes_entry [OF assms] obtain r where
    "ri_name r \<noteq> ''PRIMARY''" "n = ri_name r" "ix = build_index be r" by blast
  then show ?thesis by (simp add: idx_name_build_index)
qed

text \<open>
  On a text of ASCII characters \<open>str_lower\<close> keeps the length and leaves no letter from
  A to Z: each such letter has moved by 32, every other character is as it was. On any
  other text it is \<open>unicode_lower\<close>.
\<close>

lemma is_ascii_iff: "is_ascii s \<longleftrightarrow> (\<forall>c \<in> set s. (of_char c :: nat) < 128)"
  by (simp add: is_ascii_def list_all_iff)

lemma of_char_lower_char:
  "(of_char (lower_char c) :: nat) =
     (if 65 \<le> (of_char c :: nat) \<and> (of_char c :: nat) \<le> 90 then of_char c + 32
      else of_char c)"
  by (simp add: lower_char_def Let_def)

lemma lower_char_other:
  "\<not> (65 \<le> (of_char c :: nat) \<and> (of_char c :: nat) \<le> 90) \<Longrightarrow> lower_char c = c"
  by (auto simp: lower_char_def Let_def)

lemma str_lower_ascii:
  "\<forall>c \<in> set s. (of_char c :: nat) < 128 \<Longrightarrow> str_lower be s = map lower_char s"
  by (simp add: str_lower_def is_ascii_iff)

lemma str_lower_beyond_ascii:
  "\<exists>c \<in> set s. 128 \<le> (of_char c :: nat) \<Longrightarrow> str_lower be s = unicode_lower be s"
  by (auto simp: str_lower_def is_ascii_iff)

lemma str_lower_no_upper:
  "\<forall>c \<in> set s. (of_char c :: nat) < 128 \<Longrightarrow> c \<in> set (str_lower be s)
     \<Longrightarrow> \<not> (65 \<le> (of_char c :: nat) \<and> (of_char c :: nat) \<le> 90)"
  by (auto simp: str_lower_ascii of_char_lower_char split: if_splits)

text \<open>
  C4. In every table of the returned model, no key of the index mapping and no name of a
  stored index is \<open>PRIMARY\<close>: the keys are the names of the rows that the index lookup
  returned, without \<open>PRIMARY\<close>. On the small catalog the table \<open>customers\<close> has such a
  row beside its primary key.
\<close>

theorem primary_index_never_stored:
  assumes "snd (extract_schema be) = Inr dm" "(s, sm) \<in> set (schemas dm)"
    "(t, tm) \<in> set (tables sm)"
  shows "''PRIMARY'' \<notin> fst ` set (indexes tm) \<and>
         ''PRIMARY'' \<notin> idx_name ` snd ` set (indexes tm) \<and>
         (\<exists>idxs. get_indexes be t s = Inr idxs \<and>
            fst ` set (indexes tm) = ri_name ` set idxs - {''PRIMARY''})"
proof -
  from assembled_table [OF assms] obtain out where "build_table be s t = (out, Inr tm)" ..
  from build_table_Inr [OF this] obtain idxs where
    g: "get_indexes be t s = Inr idxs" and i: "indexes tm = build_indexes be idxs" by auto
  have k: "fst ` set (indexes tm) = ri_name ` set idxs - {''PRIMARY''}"
    unfolding i by (rule build_indexes_keys)
  have a: "''PRIMARY'' \<notin> fst ` set (indexes tm)"
    unfolding k by simp
  have b: "''PRIMARY'' \<notin> idx_name ` snd ` set (indexes tm)"
  proof
    assume "''PRIMARY'' \<in> idx_name ` snd ` set (indexes tm)"
    then obtain n ix where "(n, ix) \<in> set (build_indexes be idxs)" "idx_name ix = ''PRIMARY''"
      unfolding i by force
    with build_indexes_no_primary [of n ix be idxs] show False by simp
  qed
  from g k have "\<exists>idxs. get_indexes be t s = Inr idxs \<and>
            fst ` set (indexes tm) = ri_name ` set idxs - {''PRIMARY''}"
    by (intro exI [of _ idxs] conjI)
  with a b show ?thesis by (intro conjI)
qed

theorem primary_index_never_stored_witness:
  "snd (extract_schema demo_backend) = Inr demo_model
   \<and> (''public'', demo_public) \<in> set (schemas demo_model)
   \<and> (''customers'', demo_customers) \<in> set (tables demo_public)
   \<and> ''PRIMARY'' \<notin> fst ` set (indexes demo_customers)
   \<and> ''PRIMARY'' \<notin> idx_name ` snd ` set (indexes demo_customers)
   \<and> (\<exists>idxs. get_indexes demo_backend ''customers'' ''public'' = Inr idxs
         \<and> fst ` set (indexes demo_customers) = ri_name ` set idxs - {''PRIMARY''})
   \<and> (\<exists>idxs. get_indexes demo_backend ''customers'' ''public'' = Inr idxs
         \<and> ''PRIMARY'' \<in> ri_name ` set idxs)"
proof -
  have "\<exists>idxs. get_indexes demo_backend ''customers'' ''public'' = Inr idxs
         \<and> ''PRIMARY'' \<in> ri_name ` set idxs"
    by (simp add: demo_backend_def)
  with primary_index_never_stored
    [OF extract_schema_demo demo_public_in_model demo_customers_in_public]
    extract_schema_demo demo_public_in_model demo_customers_in_public
  show ?thesis by (intro conjI) simp_all
qed

text \<open>
  C5. Every index stored in a table of the returned model was built from a row of the index
  lookup of that name, and its type is the lower-casing of the row's label, where the label
  of a row without a type is \<open>btree\<close>. For a label of ASCII characters this says: the
  stored type has the length of the label, a letter from A to Z of the label stands 32
  higher in the stored type, and every other character is the same. For any other label
  the stored type is what \<open>unicode_lower\<close> makes of it. For a row without a type the
  stored type is \<open>btree\<close>.
\<close>

theorem index_type_lower_cased:
  assumes "snd (extract_schema be) = Inr dm" "(s, sm) \<in> set (schemas dm)"
    "(t, tm) \<in> set (tables sm)" "(n, ix) \<in> set (indexes tm)"
  shows "\<exists>idxs row label stored.
           get_indexes be t s = Inr idxs \<and> row \<in> set idxs \<and> ri_name row = n \<and>
           idx_name ix = n \<and>
           label = (case ri_type row of None \<Rightarrow> ''btree'' | Some l \<Rightarrow> l) \<and>
           idx_type ix = Some stored \<and>
           ((\<forall>c \<in> set label. (of_char c :: nat) < 128) \<longrightarrow>
              length stored = length label \<and>
              (\<forall>i < length label.
                 if 65 \<le> (of_char (label ! i) :: nat) \<and> (of_char (label ! i) :: nat) \<le> 90
                 then (of_char (stored ! i) :: nat) = of_char (label ! i) + 32
                 else stored ! i = label ! i)) \<and>
           ((\<exists>c \<in> set label. 128 \<le> (of_char c :: nat)) \<longrightarrow>
              stored = unicode_lower be label) \<and>
           (ri_type row = None \<longrightarrow> stored = ''btree'')"
proof -
  from assembled_table [OF assms(1-3)] obtain out where "build_table be s t = (out, Inr tm)" ..
  from build_table_Inr [OF this] obtain idxs where
    g: "get_indexes be t s = Inr idxs" and i: "indexes tm = build_indexes be idxs" by auto
  from assms(4) i obtain row where
    r: "row \<in> set idxs" "n = ri_name row" "ix = build_index be row"
    by (auto dest: build_indexes_entry)
  define label where "label = (case ri_type row of None \<Rightarrow> ''btree'' | Some l \<Rightarrow> l)"
  define stored where "stored = str_lower be label"
  have t: "idx_type ix = Some stored" and m: "idx_name ix = n"
    using r by (simp_all add: build_index_def Let_def stored_def label_def)
  have a: "length stored = length label \<and>
           (\<forall>i < length label.
              if 65 \<le> (of_char (label ! i) :: nat) \<and> (of_char (label ! i) :: nat) \<le> 90
              then (of_char (stored ! i) :: nat) = of_char (label ! i) + 32
              else stored ! i = label ! i)"
    if "\<forall>c \<in> set label. (of_char c :: nat) < 128"
  proof -
    from that have "stored = map lower_char label"
      unfolding stored_def by (rule str_lower_ascii)
    then show ?thesis
      by (simp add: of_char_lower_char lower_char_other)
  qed
  have u: "stored = unicode_lower be label" if "\<exists>c \<in> set label. 128 \<le> (of_char c :: nat)"
    using that unfolding stored_def by (rule str_lower_beyond_ascii)
  have d: "stored = ''btree''" if "ri_type row = None"
    using that by (simp add: stored_def label_def str_lower_btree)
  from g r(1,2) m label_def t a u d show ?thesis
    by (intro exI [of _ idxs] exI [of _ row] exI [of _ label] exI [of _ stored]) simp
qed

text \<open>
  On the small catalog: the index \<open>ix_line\<close> of \<open>items\<close> comes from a row of type
  \<open>Hash\<close> and is stored with type \<open>hash\<close>; the index \<open>ix_buyer\<close> comes from a row
  without a type and is stored with type \<open>btree\<close>.
\<close>

theorem index_type_lower_cased_witness:
  "snd (extract_schema demo_backend) = Inr demo_model
   \<and> (''public'', demo_public) \<in> set (schemas demo_model)
   \<and> (''items'', demo_items) \<in> set (tables demo_public)
   \<and> (''ix_line'', demo_ix_line) \<in> set (indexes demo_items)
   \<and> (\<exists>idxs row stored. get_indexes demo_backend ''items'' ''public'' = Inr idxs
         \<and> row \<in> set idxs \<and> ri_name row = ''ix_line'' \<and> ri_type row = Some ''Hash''
         \<and> idx_type demo_ix_line = Some stored \<and> stored = ''hash'')
   \<and> (''ix_buyer'', demo_ix_buyer) \<in> set (indexes demo_items)
   \<and> (\<exists>idxs row stored. get_indexes demo_backend ''items'' ''public'' = Inr idxs
         \<and> row \<in> set idxs \<and> ri_name row = ''ix_buyer'' \<and> ri_type row = None
         \<and> idx_type demo_ix_buyer = Some stored \<and> stored = ''btree'')"
proof -
  have c: "(''ix_line'', demo_ix_line) \<in> set (indexes demo_items)"
    and c': "(''ix_buyer'', demo_ix_buyer) \<in> set (indexes demo_items)"
    by (simp_all add: demo_items_def)
  have h: "ri_type row = Some ''Hash''"
    if "get_indexes demo_backend ''items'' ''public'' = Inr idxs" "row \<in> set idxs"
      "ri_name row = ''ix_line''" for idxs row
    using that by (auto simp: demo_backend_def)
  have n: "ri_type row = None"
    if "get_indexes demo_backend ''items'' ''public'' = Inr idxs" "row \<in> set idxs"
      "ri_name row = ''ix_buyer''" for idxs row
    using that by (auto simp: demo_backend_def)
  from index_type_lower_cased [OF extract_schema_demo demo_public_in_model demo_items_in_public c]
  obtain idxs row stored where
    g: "get_indexes demo_backend ''items'' ''public'' = Inr idxs" and
    r: "row \<in> set idxs" "ri_name row = ''ix_line''" and
    t: "idx_type demo_ix_line = Some stored"
    by (elim exE conjE)
  from t have "stored = ''hash''" by (simp add: demo_ix_line_def)
  with g r t h [OF g r]
  have 1: "\<exists>idxs row stored. get_indexes demo_backend ''items'' ''public'' = Inr idxs
      \<and> row \<in> set idxs \<and> ri_name row = ''ix_line'' \<and> ri_type row = Some ''Hash''
      \<and> idx_type demo_ix_line = Some stored \<and> stored = ''hash''"
    by (intro exI [of _ idxs] exI [of _ row] exI [of _ stored] conjI)
  from index_type_lower_cased [OF extract_schema_demo demo_public_in_model demo_items_in_public c']
  obtain idxs row stored where
    g: "get_indexes demo_backend ''items'' ''public'' = Inr idxs" and
    r: "row \<in> set idxs" "ri_name row = ''ix_buyer''" and
    t: "idx_type demo_ix_buyer = Some stored" and
    d: "ri_type row = None \<longrightarrow> stored = ''btree''"
    by (elim exE conjE)
  from n [OF g r] d have "stored = ''btree''" "ri_type row = None" by simp_all
  with g r t
  have 2: "\<exists>idxs row stored. get_indexes demo_backend ''items'' ''public'' = Inr idxs
      \<and> row \<in> set idxs \<and> ri_name row = ''ix_buyer'' \<and> ri_type row = None
      \<and> idx_type demo_ix_buyer = Some stored \<and> stored = ''btree''"
    by (intro exI [of _ idxs] exI [of _ row] exI [of _ stored] conjI)
  from extract_schema_demo demo_public_in_model demo_items_in_public c 1 c' 2
  show ?thesis by (intro conjI)
qed

section \<open>Schemas and keys\<close>

lemma schemas_loop_distinct:
  "schemas_loop be ss acc = (out, Inr r) \<Longrightarrow> distinct (map fst acc) \<Longrightarrow> distinct (map fst r)"
proof (induction ss arbitrary: acc out)
  case Nil
  then show ?case by simp
next
  case (Cons a ss)
  from Cons.prems(1) obtain ts o2 where
    l: "schemas_loop be ss (AList.update a \<lparr>tables = ts\<rparr> acc) = (o2, Inr r)"
    by (auto simp: Let_def split: prod.splits sum.splits)
  from Cons.IH [OF l] Cons.prems(2) show ?case
    by (simp add: distinct_update)
qed

text \<open>
  C8. The keys of the schema mapping of the returned model are the names that the metadata
  facility returned, without \<open>information_schema\<close> and \<open>pg_catalog\<close>; no key occurs
  twice.
\<close>

theorem schemas_are_non_system_names:
  assumes "snd (extract_schema be) = Inr dm"
  shows "\<exists>names. get_schema_names be = Inr names \<and>
           fst ` set (schemas dm) = set names - {''information_schema'', ''pg_catalog''} \<and>
           distinct (map fst (schemas dm))"
proof -
  from extract_schema_Inr [OF assms] obtain names out where
    g: "get_schema_names be = Inr names" and
    l: "schemas_loop be (filter (\<lambda>s. s \<notin> set system_schemas) names) [] = (out, Inr (schemas dm))"
    by blast
  from schemas_loop_keys [OF l]
  have "fst ` set (schemas dm) = set names - {''information_schema'', ''pg_catalog''}"
    by (auto simp: system_schemas_def)
  moreover from schemas_loop_distinct [OF l] have "distinct (map fst (schemas dm))" by simp
  ultimately show ?thesis using g by blast
qed

theorem schemas_are_non_system_names_witness:
  "snd (extract_schema demo_backend) = Inr demo_model
   \<and> get_schema_names demo_backend
       = Inr [''information_schema'', ''public'', ''pg_catalog'', ''audit'']
   \<and> fst ` set (schemas demo_model) = {''public'', ''audit''}
   \<and> distinct (map fst (schemas demo_model))"
proof -
  have g: "get_schema_names demo_backend
       = Inr [''information_schema'', ''public'', ''pg_catalog'', ''audit'']"
    by (simp add: demo_backend_def)
  from schemas_are_non_system_names [OF extract_schema_demo] g
  have "fst ` set (schemas demo_model)
          = set [''information_schema'', ''public'', ''pg_catalog'', ''audit'']
              - {''information_schema'', ''pg_catalog''}"
    and d: "distinct (map fst (schemas demo_model))" by auto
  moreover have "set [''information_schema'', ''public'', ''pg_catalog'', ''audit'']
              - {''information_schema'', ''pg_catalog''} = {''public'', ''audit''}"
    by auto
  ultimately show ?thesis using extract_schema_demo g by simp
qed

text \<open>
  C9. In every table of the returned model, a column is stored under its name, an index
  under its name, and a reverse reference under its referencing table.
\<close>

theorem table_keys_match_names:
  assumes "snd (extract_schema be) = Inr dm" "(s, sm) \<in> set (schemas dm)"
    "(t, tm) \<in> set (tables sm)"
  shows "((c, col) \<in> set (columns tm) \<longrightarrow> col_name col = c) \<and>
         ((n, ix) \<in> set (indexes tm) \<longrightarrow> idx_name ix = n) \<and>
         ((k, rb) \<in> set (referenced_by tm) \<longrightarrow> ref_table rb = k)"
proof -
  from assembled_table [OF assms] obtain out where "build_table be s t = (out, Inr tm)" ..
  from build_table_Inr [OF this] obtain cols pks fks idxs refs where
    c: "columns tm = build_columns cols pks fks" and
    i: "indexes tm = build_indexes be idxs" and
    g: "get_referenced_by be s t = Inr refs" and r: "referenced_by tm = refs" by auto
  have "col_name col = c" if "(c, col) \<in> set (columns tm)"
    using that unfolding c
    by (auto dest!: build_columns_entry simp: build_column_def Let_def split: option.splits)
  moreover have "idx_name ix = n" if "(n, ix) \<in> set (indexes tm)"
    using that unfolding i by (auto dest!: build_indexes_entry simp: build_index_def Let_def)
  moreover have "ref_table rb = k" if "(k, rb) \<in> set (referenced_by tm)"
    using that get_referenced_by_entry [OF g, of k rb] unfolding r
    by (auto simp: referenced_by_entry_def split: prod.splits)
  ultimately show ?thesis by blast
qed

theorem table_keys_match_names_witness:
  "snd (extract_schema demo_backend) = Inr demo_model
   \<and> (''public'', demo_public) \<in> set (schemas demo_model)
   \<and> (''customers'', demo_customers) \<in> set (tables demo_public)
   \<and> (''id'', demo_id) \<in> set (columns demo_customers) \<and> col_name demo_id = ''id''
   \<and> (''ix_id'', demo_ix_id) \<in> set (indexes demo_customers) \<and> idx_name demo_ix_id = ''ix_id''
   \<and> (''items'', demo_ref) \<in> set (referenced_by demo_customers)
   \<and> ref_table demo_ref = ''items''"
proof -
  have m: "(''id'', demo_id) \<in> set (columns demo_customers)"
    "(''ix_id'', demo_ix_id) \<in> set (indexes demo_customers)"
    "(''items'', demo_ref) \<in> set (referenced_by demo_customers)"
    by (simp_all add: demo_customers_def)
  from table_keys_match_names [OF extract_schema_demo demo_public_in_model demo_customers_in_public,
      of "''id''" demo_id "''ix_id''" demo_ix_id "''items''" demo_ref]
  show ?thesis
    using extract_schema_demo demo_public_in_model demo_customers_in_public m by blast
qed

section \<open>Reverse references\<close>

text \<open>
  C10. Every value of the mapping that the reverse-reference lookup returns has exactly one
  column, the referencing column of one row of the catalog.
\<close>

theorem referenced_by_single_column:
  assumes "get_referenced_by be s t = Inr refs" "(k, rb) \<in> set refs"
  shows "length (ref_columns rb) = 1 \<and>
         (\<exists>rows src col con. execute_referenced_by be s t = Inr rows \<and>
            (src, col, con) \<in> set rows \<and> k = src \<and> ref_columns rb = [col])"
proof -
  from get_referenced_by_entry [OF assms] obtain rows row where
    r: "execute_referenced_by be s t = Inr rows" "row \<in> set rows"
      "k = fst (referenced_by_entry row)" "rb = snd (referenced_by_entry row)" by blast
  obtain src col con where row: "row = (src, col, con)" by (cases row) auto
  from r row have "k = src" "ref_columns rb = [col]" "(src, col, con) \<in> set rows"
    by (simp_all add: referenced_by_entry_def)
  with r(1) show ?thesis by auto
qed

theorem referenced_by_single_column_witness:
  "get_referenced_by demo_backend ''public'' ''customers''
      = Inr [(''items'', demo_ref), (''invoices'', demo_ref_invoices)]
   \<and> (''items'', demo_ref) \<in> set [(''items'', demo_ref), (''invoices'', demo_ref_invoices)]
   \<and> length (ref_columns demo_ref) = 1"
proof -
  have r: "get_referenced_by demo_backend ''public'' ''customers''
      = Inr [(''items'', demo_ref), (''invoices'', demo_ref_invoices)]"
    by (simp add: demo_defs run_defs)
  have m: "(''items'', demo_ref) \<in> set [(''items'', demo_ref), (''invoices'', demo_ref_invoices)]"
    by simp
  from referenced_by_single_column [OF r m] show ?thesis using r m by blast
qed

section \<open>Failures\<close>

subsection \<open>Which failures are wrapped\<close>

text \<open>
  A failure of the primary-key or foreign-key lookup leaves \<open>build_table\<close> as it is; a
  failure of the index lookup or of the reverse-reference lookup leaves it as
  \<open>SchemaValueError\<close>. The message of the second names the schema, the table and the
  cause; the message of the first does not depend on the schema or the table.
\<close>

lemma primary_key_failure_not_wrapped:
  "get_columns be t s = Inr cols \<Longrightarrow> get_primary_keys be s t = Inl e
     \<Longrightarrow> build_table be s t = ([], Inl e)"
  by (simp add: build_table_def)

lemma foreign_key_failure_not_wrapped:
  "get_columns be t s = Inr cols \<Longrightarrow> get_primary_keys be s t = Inr pks
     \<Longrightarrow> get_foreign_keys be s t = Inl e \<Longrightarrow> build_table be s t = ([], Inl e)"
  by (simp add: build_table_def)

lemma index_failure_wrapped:
  "get_columns be t s = Inr cols \<Longrightarrow> get_primary_keys be s t = Inr pks
     \<Longrightarrow> get_foreign_keys be s t = Inr fks \<Longrightarrow> get_indexes be t s = Inl e
     \<Longrightarrow> snd (build_table be s t) = Inl (SchemaValueError (index_error_message s t e))"
  by (simp add: build_table_def Let_def)

lemma referenced_by_failure_wrapped:
  "get_columns be t s = Inr cols \<Longrightarrow> get_primary_keys be s t = Inr pks
     \<Longrightarrow> get_foreign_keys be s t = Inr fks \<Longrightarrow> get_indexes be t s = Inr idxs
     \<Longrightarrow> get_referenced_by be s t = Inl e
     \<Longrightarrow> snd (build_table be s t)
           = Inl (SchemaValueError (referenced_by_error_message s t e))"
  by (simp add: build_table_def Let_def)

lemma index_error_message_ignores_names:
  "index_error_message s t e = index_error_message s' t' e"
  by (simp add: index_error_message_def)

lemma starts_with_append: "starts_with (p @ b) p"
  by (induction p) auto

lemma str_contains_prefix: "str_contains (p @ b) p"
  by (cases "p @ b") (auto simp: starts_with_append  dest: sym)

lemma str_contains_append: "str_contains s p \<Longrightarrow> str_contains (a @ s) p"
  by (induction a) auto

lemma str_contains_middle: "str_contains (a @ p @ b) p"
  by (simp add: str_contains_append str_contains_prefix)

lemma str_contains_suffix: "str_contains (a @ p) p"
  using str_contains_middle [of a p "[]"] by simp

lemma referenced_by_error_message_names:
  "str_contains (referenced_by_error_message s t e) s"
  "str_contains (referenced_by_error_message s t e) t"
  "str_contains (referenced_by_error_message s t e) (str_of_error e)"
proof -
  let ?a = "''Erro ao tentar obter restri'' @ c_cedilla @ o_tilde
              @ ''es de integridade referencial '' @ ''no cat'' @ a_acute @ ''logo para ''
              @ apostrophe"
  have "referenced_by_error_message s t e
          = ?a @ s @ (''.'' @ t @ apostrophe @ ''. Exception: '' @ str_of_error e)"
    by (simp add: referenced_by_error_message_def)
  then show "str_contains (referenced_by_error_message s t e) s"
    by (simp only: str_contains_middle)
  have "referenced_by_error_message s t e
          = (?a @ s @ ''.'') @ t @ (apostrophe @ ''. Exception: '' @ str_of_error e)"
    by (simp add: referenced_by_error_message_def)
  then show "str_contains (referenced_by_error_message s t e) t"
    by (simp only: str_contains_middle)
  have "referenced_by_error_message s t e
          = (?a @ s @ ''.'' @ t @ apostrophe @ ''. Exception: '') @ str_of_error e"
    by (simp add: referenced_by_error_message_def)
  then show "str_contains (referenced_by_error_message s t e) (str_of_error e)"
    by (simp only: str_contains_suffix)
qed

text \<open>
  C6. A failure of the index lookup or of the reverse-reference lookup is raised again as
  \<open>SchemaValueError\<close> with a message that names the schema, the table and the cause.
  The run below is the source on the catalog where the index lookup of
  \<open>public.customers\<close> is refused: the error is a \<open>SchemaValueError\<close> and its message
  has the cause, but in place of the names it has the text
  \<^verbatim>\<open>{schema_name}.{table_name}\<close>; neither \<open>public\<close> nor \<open>customers\<close> occurs in it.
\<close>

theorem index_failure_message_lacks_names:
  "extract_schema failing_backend
     = ([''schema = public'', ''table_name = customers'',
         ''Obtendo os indices para a tabela '' @ apostrophe @ ''public.customers'' @ apostrophe],
        Inl (SchemaValueError failing_message))
   \<and> \<not> str_contains failing_message ''public''
   \<and> \<not> str_contains failing_message ''customers''
   \<and> str_contains failing_message ''permission denied''"
  by (simp add: failing_backend_def demo_defs run_defs index_error_message_def
       failing_message_def a_acute_def)

subsection \<open>A failure ends the run\<close>

lemma build_table_fails:
  "isl (get_indexes be t s) \<or> isl (get_referenced_by be s t) \<Longrightarrow> isl (snd (build_table be s t))"
  by (auto simp: build_table_def Let_def split: sum.splits)

lemma snd_tables_loop_Cons:
  "snd (tables_loop be s (a # ts) acc) =
     (case snd (build_table be s a) of
        Inl e \<Rightarrow> Inl e
      | Inr tm \<Rightarrow> snd (tables_loop be s ts (AList.update a tm acc)))"
  by (simp split: prod.splits sum.splits)

lemma snd_schemas_loop_Cons:
  "snd (schemas_loop be (a # ss) acc) =
     (case get_table_names be a of
        Inl e \<Rightarrow> Inl e
      | Inr tbls \<Rightarrow>
          (case snd (tables_loop be a tbls []) of
             Inl e \<Rightarrow> Inl e
           | Inr ts \<Rightarrow> snd (schemas_loop be ss (AList.update a \<lparr>tables = ts\<rparr> acc))))"
  by (simp add: Let_def split: prod.splits sum.splits)

lemma tables_loop_fails:
  "t \<in> set ts \<Longrightarrow> isl (snd (build_table be s t)) \<Longrightarrow> isl (snd (tables_loop be s ts acc))"
proof (induction ts arbitrary: acc)
  case Nil
  then show ?case by simp
next
  case (Cons a ts)
  show ?case
  proof (cases "snd (build_table be s a)")
    case (Inl e)
    then show ?thesis by (simp only: snd_tables_loop_Cons) simp
  next
    case (Inr tm)
    with Cons.prems have "t \<in> set ts" by auto
    from Cons.IH [OF this Cons.prems(2)] Inr show ?thesis
      by (simp only: snd_tables_loop_Cons) simp
  qed
qed

lemma tables_loop_stops:
  "isl (snd (build_table be s t))
     \<Longrightarrow> tables_loop be s (ts1 @ t # ts2) acc = tables_loop be s (ts1 @ [t]) acc"
  by (induction ts1 arbitrary: acc) (auto split: prod.splits sum.splits)

lemma schemas_loop_fails:
  "s \<in> set ss \<Longrightarrow> get_table_names be s = Inr tbls \<Longrightarrow> isl (snd (tables_loop be s tbls []))
     \<Longrightarrow> isl (snd (schemas_loop be ss acc))"
proof (induction ss arbitrary: acc)
  case Nil
  then show ?case by simp
next
  case (Cons a ss)
  show ?case
  proof (cases "a = s")
    case True
    with Cons.prems(2,3) show ?thesis
      by (simp only: snd_schemas_loop_Cons) (auto split: sum.splits)
  next
    case False
    with Cons.prems(1) have "s \<in> set ss" by simp
    from Cons.IH [OF this Cons.prems(2,3)] show ?thesis
      by (simp only: snd_schemas_loop_Cons) (auto split: sum.splits)
  qed
qed

lemma schemas_loop_stops:
  "get_table_names be s = Inr tbls \<Longrightarrow> isl (snd (tables_loop be s tbls []))
     \<Longrightarrow> schemas_loop be (ss1 @ s # ss2) acc = schemas_loop be (ss1 @ [s]) acc"
  by (induction ss1 arbitrary: acc) (auto simp: Let_def split: prod.splits sum.splits)

lemma main_fails:
  "isl (snd (extract_schema be))
     \<Longrightarrow> written (main be env) = None \<and> exit_code (main be env) = 1 \<and>
         session_closed (main be env)"
  by (auto simp: main_def failed_def Let_def split: prod.splits sum.splits)

text \<open>
  C7. When the index lookup or the reverse-reference lookup raises for a table of a schema
  that the run visits, \<open>extract_schema\<close> returns no model, \<open>main\<close> writes no file and
  exits with code 1 after closing the session, and the tables and schemas that follow the
  failing one are not visited: the loops run as if the failing table and its schema were
  the last of their lists.
\<close>

theorem failed_lookup_aborts_run:
  assumes "get_schema_names be = Inr names" "s \<in> set names" "s \<notin> set system_schemas"
    "get_table_names be s = Inr tbls" "t \<in> set tbls"
    "isl (get_indexes be t s) \<or> isl (get_referenced_by be s t)"
  shows "isl (snd (extract_schema be)) \<and>
         written (main be env) = None \<and> exit_code (main be env) = 1 \<and>
         session_closed (main be env) \<and>
         tables_loop be s (ts1 @ t # ts2) acc = tables_loop be s (ts1 @ [t]) acc \<and>
         schemas_loop be (ss1 @ s # ss2) acc' = schemas_loop be (ss1 @ [s]) acc'"
proof -
  from assms(6) have b: "isl (snd (build_table be s t))" by (rule build_table_fails)
  from tables_loop_fails [OF assms(5) b] have l: "isl (snd (tables_loop be s tbls []))" .
  from assms(2,3) have "s \<in> set (filter (\<lambda>s. s \<notin> set system_schemas) names)" by simp
  from schemas_loop_fails [OF this assms(4) l]
  have "isl (snd (schemas_loop be (filter (\<lambda>s. s \<notin> set system_schemas) names) []))" .
  with assms(1) have e: "isl (snd (extract_schema be))"
    by (auto simp: extract_schema_def split: prod.splits sum.splits)
  from main_fails [OF e] e tables_loop_stops [OF b] schemas_loop_stops [OF assms(4) l]
  show ?thesis by simp
qed

theorem failed_lookup_aborts_run_witness:
  "get_schema_names failing_backend
      = Inr [''information_schema'', ''public'', ''pg_catalog'', ''audit'']
   \<and> ''public'' \<in> set [''information_schema'', ''public'', ''pg_catalog'', ''audit'']
   \<and> ''public'' \<notin> set system_schemas
   \<and> get_table_names failing_backend ''public'' = Inr [''customers'', ''items'']
   \<and> ''customers'' \<in> set [''customers'', ''items'']
   \<and> (isl (get_indexes failing_backend ''customers'' ''public'')
        \<or> isl (get_referenced_by failing_backend ''public'' ''customers''))
   \<and> isl (snd (extract_schema failing_backend))
   \<and> written (main failing_backend demo_environment) = None
   \<and> exit_code (main failing_backend demo_environment) = 1
   \<and> session_closed (main failing_backend demo_environment)
   \<and> tables_loop failing_backend ''public'' ([] @ ''customers'' # [''items'']) []
        = tables_loop failing_backend ''public'' ([] @ [''customers'']) []
   \<and> schemas_loop failing_backend ([] @ ''public'' # [''audit'']) []
        = schemas_loop failing_backend ([] @ [''public'']) []"
proof -
  have h1: "get_schema_names failing_backend
      = Inr [''information_schema'', ''public'', ''pg_catalog'', ''audit'']"
    by (simp add: failing_backend_def demo_backend_def)
  have h2: "''public'' \<in> set [''information_schema'', ''public'', ''pg_catalog'', ''audit'']"
    by simp
  have h3: "''public'' \<notin> set system_schemas"
    by (simp add: system_schemas_def)
  have h4: "get_table_names failing_backend ''public'' = Inr [''customers'', ''items'']"
    by (simp add: failing_backend_def demo_backend_def)
  have h5: "''customers'' \<in> set [''customers'', ''items'']"
    by simp
  have h6: "isl (get_indexes failing_backend ''customers'' ''public'')
        \<or> isl (get_referenced_by failing_backend ''public'' ''customers'')"
    by (simp add: failing_backend_def)
  from failed_lookup_aborts_run [OF h1 h2 h3 h4 h5 h6, of demo_environment "[]" "[''items'']" "[]" "[]" "[''audit'']" "[]"]
  show ?thesis using h1 h2 h3 h4 h5 h6 by blast
qed

end
